theory Spec2Isabelle
  imports Main "HOL-Library.Word"
begin

section \<open>Store-and-forward relay of \<open>net_interface.py\<close>\<close>

text \<open>
  A shallow embedding of the wire codec (\<open>pack_message\<close>, \<open>unpack_message\<close>), of the
  relay's \<open>Server.handleInteraction\<close> with its mailbox queue, and of the client driver
  (\<open>send\<close>, \<open>receive\<close>) of \<open>net_interface.py\<close>. Python's \<open>bytes\<close> are lists of 8-bit
  words, its unbounded integers are \<open>int\<close>, \<open>None\<close>-or-string addresses are
  \<open>string option\<close>, and every exception is the \<open>Inl\<close> branch of a sum.
\<close>

subsection \<open>Bytes and exceptions\<close>

type_synonym byte = "8 word"
type_synonym bytes = "byte list"

text \<open>
  The exception classes the module defines (\<open>ConnectionError\<close>, \<open>AckTimeout\<close>,
  \<open>ReceiveError\<close>, \<open>CommandError\<close>), with their message where the code gives one, and the two
  library exceptions its calls can raise: \<open>OSError\<close> from \<open>socket.inet_aton\<close> and
  \<open>struct.error\<close> from the \<open>struct\<close> module.
\<close>

datatype error =
    OSError
  | StructError
  | ConnectionError string
  | AckTimeout string
  | ReceiveError string
  | CommandError string

text \<open>The message types: \<open>SEND = 0\<close>, \<open>ACK = 1\<close>, \<open>REQ = 2\<close>, \<open>MSG = 3\<close>.\<close>

definition SEND :: int where "SEND = 0"
definition ACK :: int where "ACK = 1"
definition REQ :: int where "REQ = 2"
definition MSG :: int where "MSG = 3"

subsection \<open>Dotted-quad addresses: \<open>socket.inet_aton\<close> and \<open>socket.inet_ntoa\<close>\<close>

text \<open>
  The two library calls are modelled on dotted-quad decimal notation: four decimal fields
  \<open>0..255\<close> without leading zeros, separated by dots. \<open>inet_ntoa\<close> prints exactly that
  notation for every four bytes. The C library's \<open>inet_aton\<close> also reads shorthand, octal and
  hexadecimal forms; the model rejects them with \<open>OSError\<close>, so it accepts a subset of what
  the library accepts and agrees with the library on that subset.
\<close>

definition digit_char :: "nat \<Rightarrow> char" where
  "digit_char d = ''0123456789'' ! d"

definition digit_val :: "char \<Rightarrow> nat option" where
  "digit_val = map_of (zip ''0123456789'' [0, 1, 2, 3, 4, 5, 6, 7, 8, 9])"

text \<open>The decimal numeral of a natural number, as \<open>%d\<close> prints it.\<close>

function dec_str :: "nat \<Rightarrow> string" where
  "dec_str n = (if n < 10 then [digit_char n] else dec_str (n div 10) @ [digit_char (n mod 10)])"
  by pat_completeness auto
termination
  by (relation "measure (\<lambda>n. n)") auto

declare dec_str.simps [simp del]

text \<open>Reading a string of decimal digits, most significant first.\<close>

fun parse_dec :: "nat \<Rightarrow> string \<Rightarrow> nat option" where
  "parse_dec acc [] = Some acc"
| "parse_dec acc (c # cs) =
     (case digit_val c of None \<Rightarrow> None | Some d \<Rightarrow> parse_dec (acc * 10 + d) cs)"

text \<open>One field of an address: a decimal numeral without leading zero, at most 255.\<close>

definition parse_octet :: "string \<Rightarrow> byte option" where
  "parse_octet s =
     (if s = [] \<or> (length s > 1 \<and> hd s = CHR ''0'') then None
      else case parse_dec 0 s of
             None \<Rightarrow> None
           | Some n \<Rightarrow> if n \<le> 255 then Some (of_nat n) else None)"

text \<open>Splitting at every dot; the result is never empty.\<close>

fun split_dots :: "string \<Rightarrow> string list" where
  "split_dots [] = [[]]"
| "split_dots (c # cs) =
     (if c = CHR ''.'' then [] # split_dots cs
      else case split_dots cs of
             [] \<Rightarrow> [[c]]
           | p # ps \<Rightarrow> (c # p) # ps)"

definition inet_aton :: "string \<Rightarrow> error + bytes" where
  "inet_aton s =
     (case split_dots s of
        [a, b, c, d] \<Rightarrow>
          (case (parse_octet a, parse_octet b, parse_octet c, parse_octet d) of
             (Some w, Some x, Some y, Some z) \<Rightarrow> Inr [w, x, y, z]
           | _ \<Rightarrow> Inl OSError)
      | _ \<Rightarrow> Inl OSError)"

text \<open>
  \<open>inet_ntoa\<close> is only called on the four-byte fields that \<open>struct\<close> unpacks; on any other
  length the library raises, which is the \<open>Inl\<close> branch.
\<close>

definition inet_ntoa :: "bytes \<Rightarrow> error + string" where
  "inet_ntoa bs =
     (case bs of
        [w, x, y, z] \<Rightarrow>
          Inr (dec_str (unat w) @ ''.'' @ dec_str (unat x) @ ''.'' @
               dec_str (unat y) @ ''.'' @ dec_str (unat z))
      | _ \<Rightarrow> Inl OSError)"

subsection \<open>The header format \<open>struct.Struct('! I 4s 4s')\<close>\<close>

text \<open>
  \<open>I\<close> packs an integer in \<open>0 .. 2^32 - 1\<close> as four bytes in network order and raises
  \<open>struct.error\<close> outside that range; \<open>4s\<close> takes a byte string, truncated or padded with zero
  bytes to four. Unpacking needs a buffer of exactly \<open>IPCMessage_size = 12\<close> bytes.
\<close>

definition IPCMessage_size :: nat where
  "IPCMessage_size = 12"

definition pack_uint32 :: "int \<Rightarrow> error + bytes" where
  "pack_uint32 c =
     (if 0 \<le> c \<and> c < 2 ^ 32
      then Inr [word_of_int (c div 2 ^ 24), word_of_int (c div 2 ^ 16),
                word_of_int (c div 2 ^ 8), word_of_int c]
      else Inl StructError)"

definition unpack_uint32 :: "bytes \<Rightarrow> int" where
  "unpack_uint32 bs =
     uint (bs ! 0) * 2 ^ 24 + uint (bs ! 1) * 2 ^ 16 + uint (bs ! 2) * 2 ^ 8 + uint (bs ! 3)"

definition pack_4s :: "bytes \<Rightarrow> bytes" where
  "pack_4s bs = take 4 bs @ replicate (4 - length bs) 0"

definition IPCMessage_pack :: "int \<Rightarrow> bytes \<Rightarrow> bytes \<Rightarrow> error + bytes" where
  "IPCMessage_pack command src dst =
     (case pack_uint32 command of
        Inl e \<Rightarrow> Inl e
      | Inr cb \<Rightarrow> Inr (cb @ pack_4s src @ pack_4s dst))"

definition IPCMessage_unpack :: "bytes \<Rightarrow> error + (int \<times> bytes \<times> bytes)" where
  "IPCMessage_unpack buf =
     (if length buf \<noteq> IPCMessage_size then Inl StructError
      else Inr (unpack_uint32 (take 4 buf), take 4 (drop 4 buf), take 4 (drop 8 buf)))"

subsection \<open>The codec: \<open>pack_message\<close> and \<open>unpack_message\<close>\<close>

definition zero_addr :: bytes where
  "zero_addr = [0, 0, 0, 0]"

text \<open>An address argument: \<open>inet_aton\<close> of the string, or four zero bytes for \<open>None\<close>.\<close>

definition addr_bytes :: "string option \<Rightarrow> error + bytes" where
  "addr_bytes a = (case a of Some s \<Rightarrow> inet_aton s | None \<Rightarrow> Inr zero_addr)"

definition pack_message :: "int \<Rightarrow> string option \<Rightarrow> string option \<Rightarrow> bytes \<Rightarrow> error + bytes" where
  "pack_message command src_addr dest_addr payload =
     (case addr_bytes src_addr of
        Inl e \<Rightarrow> Inl e
      | Inr src_addr_bytes \<Rightarrow>
          (case addr_bytes dest_addr of
             Inl e \<Rightarrow> Inl e
           | Inr dest_addr_bytes \<Rightarrow>
               (case IPCMessage_pack command src_addr_bytes dest_addr_bytes of
                  Inl e \<Rightarrow> Inl e
                | Inr header \<Rightarrow> Inr (header @ payload))))"

text \<open>A decoded address field: \<open>None\<close> for four zero bytes, else \<open>inet_ntoa\<close> of the field.\<close>

definition addr_string :: "bytes \<Rightarrow> error + string option" where
  "addr_string bs =
     (if bs = zero_addr then Inr None
      else case inet_ntoa bs of Inl e \<Rightarrow> Inl e | Inr s \<Rightarrow> Inr (Some s))"

definition unpack_message :: "bytes \<Rightarrow> error + (int \<times> string option \<times> string option \<times> bytes)" where
  "unpack_message message =
     (case IPCMessage_unpack (take IPCMessage_size message) of
        Inl e \<Rightarrow> Inl e
      | Inr (command, src_addr_bytes, dest_addr_bytes) \<Rightarrow>
          (case addr_string src_addr_bytes of
             Inl e \<Rightarrow> Inl e
           | Inr src_addr \<Rightarrow>
               (case addr_string dest_addr_bytes of
                  Inl e \<Rightarrow> Inl e
                | Inr dest_addr \<Rightarrow>
                    Inr (command, src_addr, dest_addr, drop IPCMessage_size message))))"


text \<open>
  The addresses the claims speak of: \<open>is_ipv4\<close> is a string that \<open>inet_aton\<close> accepts,
  \<open>addr_ok\<close> an optional address that \<open>pack_message\<close> can encode, and \<open>wire_addr\<close> one
  that is moreover different from \<open>0.0.0.0\<close>, whose four bytes are the sentinel of an absent
  address.
\<close>

definition is_ipv4 :: "string \<Rightarrow> bool" where
  "is_ipv4 s = (case inet_aton s of Inr _ \<Rightarrow> True | Inl _ \<Rightarrow> False)"

definition addr_ok :: "string option \<Rightarrow> bool" where
  "addr_ok a = (case a of None \<Rightarrow> True | Some x \<Rightarrow> is_ipv4 x)"


subsection \<open>Sockets\<close>

text \<open>
  A socket is what was written to it, one entry per \<open>sendall\<close>, and whether \<open>close\<close> was
  called on it. The relay's connections are taken as connected: \<open>getpeername\<close> and \<open>sendall\<close>
  succeed.
\<close>

record sock =
  sent :: "bytes list"
  closed :: bool

definition socket_new :: sock where
  "socket_new = \<lparr>sent = [], closed = False\<rparr>"

definition sendall :: "sock \<Rightarrow> bytes \<Rightarrow> sock" where
  "sendall sk b = sk\<lparr>sent := sent sk @ [b]\<rparr>"

definition close :: "sock \<Rightarrow> sock" where
  "close sk = sk\<lparr>closed := True\<rparr>"

subsection \<open>The mailbox: \<open>queue.Queue()\<close>\<close>

text \<open>
  The queue is created without a size bound, so \<open>put\<close> always appends at the tail. \<open>get\<close>
  removes the head; on an empty queue it would block for ever, which \<open>QueueBlocked\<close> stands
  for.
\<close>

type_synonym entry = "string option \<times> bytes"
type_synonym mailbox = "entry list"

datatype blocked = QueueBlocked

definition queue_put :: "mailbox \<Rightarrow> entry \<Rightarrow> mailbox" where
  "queue_put q x = q @ [x]"

definition queue_empty :: "mailbox \<Rightarrow> bool" where
  "queue_empty q = (q = [])"

definition queue_get :: "mailbox \<Rightarrow> blocked + (entry \<times> mailbox)" where
  "queue_get q = (case q of [] \<Rightarrow> Inl QueueBlocked | x # q' \<Rightarrow> Inr (x, q'))"

text \<open>
  The relay's way of taking an entry (\<open>handleInteraction\<close>, the \<open>REQ\<close> branch): \<open>get\<close> only
  after \<open>not empty()\<close>, and no entry otherwise.
\<close>

definition try_dequeue :: "mailbox \<Rightarrow> blocked + (entry option \<times> mailbox)" where
  "try_dequeue q =
     (if \<not> queue_empty q
      then (case queue_get q of Inl b \<Rightarrow> Inl b | Inr (x, q') \<Rightarrow> Inr (Some x, q'))
      else Inr (None, q))"

text \<open>\<open>n\<close> such attempts in a row, with what each one returned.\<close>

fun drain :: "nat \<Rightarrow> mailbox \<Rightarrow> blocked + (entry option list \<times> mailbox)" where
  "drain 0 q = Inr ([], q)"
| "drain (Suc n) q =
     (case try_dequeue q of
        Inl b \<Rightarrow> Inl b
      | Inr (r, q') \<Rightarrow>
          (case drain n q' of Inl b \<Rightarrow> Inl b | Inr (rs, q'') \<Rightarrow> Inr (r # rs, q'')))"

subsection \<open>The relay: \<open>Server.handleInteraction\<close>\<close>

record server =
  host :: string
  port :: nat
  queue :: mailbox

datatype failure = Raised error | Blocked blocked

text \<open>
  \<open>this_ip\<close> is the module's global of that name, the relay's own address. The result is
  the server and the socket after the call, or the exception that left it.
\<close>

definition handleInteraction ::
  "string \<Rightarrow> bytes \<Rightarrow> server \<times> sock \<Rightarrow> failure + (server \<times> sock)" where
  "handleInteraction this_ip message st =
     (case st of (self, sk) \<Rightarrow>
        (case unpack_message message of
           Inl e \<Rightarrow> Inl (Raised e)
         | Inr (command, src_addr, dest_addr, payload) \<Rightarrow>
             if command = SEND then
               (let self' = self\<lparr>queue := queue_put (queue self) (src_addr, payload)\<rparr> in
                case pack_message ACK src_addr dest_addr [] of
                  Inl e \<Rightarrow> Inl (Raised e)
                | Inr reply_message \<Rightarrow> Inr (self', sendall sk reply_message))
             else if command = REQ then
               (if \<not> queue_empty (queue self) then
                  (case queue_get (queue self) of
                     Inl b \<Rightarrow> Inl (Blocked b)
                   | Inr ((src_addr', payload'), q') \<Rightarrow>
                       (case pack_message MSG src_addr' (Some this_ip) payload' of
                          Inl e \<Rightarrow> Inl (Raised e)
                        | Inr msg \<Rightarrow> Inr (self\<lparr>queue := q'\<rparr>, sendall sk msg)))
                else
                  (case pack_message MSG None None [] of
                     Inl e \<Rightarrow> Inl (Raised e)
                   | Inr msg \<Rightarrow> Inr (self, sendall sk msg)))
             else Inr (self, sk)))"

subsection \<open>The client driver: \<open>send\<close> and \<open>receive\<close>\<close>

text \<open>
  What the network does during one call: whether \<open>connect\<close> fails (with the text of its
  exception), whether \<open>select\<close> reports the socket readable within the 3 seconds, and the
  segments the peer delivers before it closes its side.
\<close>

record net =
  connect_error :: "string option"
  ready :: bool
  incoming :: "bytes list"

text \<open>
  \<open>recv n\<close> returns at most \<open>n\<close> bytes of the next segment and leaves the rest to be read;
  it returns the empty byte string once the peer has closed.
\<close>

definition recv :: "nat \<Rightarrow> bytes list \<Rightarrow> bytes \<times> bytes list" where
  "recv n segs =
     (case segs of
        [] \<Rightarrow> ([], [])
      | c # cs \<Rightarrow> (take n c, if drop n c = [] then cs else drop n c # cs))"

text \<open>The loop of \<open>receive\<close>: read chunks of up to 1024 bytes until an empty one.\<close>

function recv_all :: "bytes list \<Rightarrow> bytes" where
  "recv_all segs =
     (case recv 1024 segs of (chunk, rest) \<Rightarrow>
        if chunk = [] then [] else chunk @ recv_all rest)"
  by pat_completeness auto
termination
  by (relation "measure (\<lambda>segs. sum_list (map length segs) + length segs)")
     (auto simp: recv_def split: list.splits if_splits)

declare recv_all.simps [simp del]

definition ack_unknown :: string where
  "ack_unknown = CHR 0x09 # ''Unknown acknowledgment issue.''"

definition ack_timed_out :: string where
  "ack_timed_out = CHR 0x09 # ''No acknowledgment received, timed out after 3 seconds.''"

text \<open>
  \<open>send\<close> returns nothing on success. The result here is that outcome together with the
  socket as the call leaves it; the \<open>sock.close()\<close> of its last line stands after a
  \<open>return\<close> and two \<open>raise\<close>s and is never reached.
\<close>

definition send :: "string \<Rightarrow> net \<Rightarrow> string \<Rightarrow> bytes \<Rightarrow> (error + unit) \<times> sock" where
  "send this_ip nw dest_addr payload =
     (let sk = socket_new in
      case connect_error nw of
        Some e \<Rightarrow> (Inl (ConnectionError (''Connection error: '' @ e)), sk)
      | None \<Rightarrow>
          (case pack_message SEND (Some this_ip) (Some dest_addr) payload of
             Inl e \<Rightarrow> (Inl e, sk)
           | Inr message \<Rightarrow>
               (let sk = sendall sk message in
                if ready nw then
                  (let data = fst (recv 1024 (incoming nw)) in
                   case unpack_message data of
                     Inl e \<Rightarrow> (Inl e, sk)
                   | Inr (command, src_addr, dest_addr', payload') \<Rightarrow>
                       if command = ACK then (Inr (), sk)
                       else (Inl (AckTimeout ack_unknown), sk))
                else (Inl (AckTimeout ack_timed_out), sk))))"

text \<open>
  \<open>receive\<close> returns the pair \<open>(None, None)\<close> for "no message" and \<open>(src_addr, payload)\<close>
  otherwise; it closes the socket on each of its exits after the connection is made.
\<close>

definition receive :: "string \<Rightarrow> net \<Rightarrow> (error + (string option \<times> bytes option)) \<times> sock" where
  "receive this_ip nw =
     (let sk = socket_new in
      case connect_error nw of
        Some e \<Rightarrow> (Inl (ConnectionError (''Connection error: '' @ e)), sk)
      | None \<Rightarrow>
          (case pack_message REQ (Some this_ip) None [] of
             Inl e \<Rightarrow> (Inl e, sk)
           | Inr message \<Rightarrow>
               (let sk = sendall sk message in
                if ready nw then
                  (let data = recv_all (incoming nw) in
                   case unpack_message data of
                     Inl e \<Rightarrow> (Inl e, sk)
                   | Inr (command, src_addr, dest_addr, payload) \<Rightarrow>
                       if command = MSG then
                         (if payload = [] \<and> src_addr = None then (Inr (None, None), close sk)
                          else (Inr (src_addr, Some payload), close sk))
                       else (Inl (ReceiveError ''Unknown receive issue.''), close sk))
                else (Inl (ReceiveError ''No message received, timed out after 3 seconds.''),
                      close sk))))"

text \<open>
  The error kind for a command outside the expected set: of the module's four exception
  classes, \<open>CommandError\<close> is the one for commands. No code path raises it.
\<close>

definition is_protocol_error :: "error \<Rightarrow> bool" where
  "is_protocol_error e = (case e of CommandError _ \<Rightarrow> True | _ \<Rightarrow> False)"

subsection \<open>Sample states and a helper for the proofs\<close>

text \<open>
  A relay with an empty mailbox, and four networks for one client call each: the relay's
  reply to \<open>REQ\<close> on an empty mailbox, delivered in two segments; a reply carrying
  a message from \<open>10.0.0.7\<close>; a \<open>MSG\<close> and an \<open>ACK\<close> arriving as the answer to \<open>send\<close>.
\<close>

definition relay0 :: server where
  "relay0 = \<lparr>host = ''10.0.0.9'', port = 65432, queue = []\<rparr>"

definition net_empty_reply :: net where
  "net_empty_reply = \<lparr>connect_error = None, ready = True,
     incoming = [[0, 0, 0, 3, 0, 0, 0, 0], [0, 0, 0, 0]]\<rparr>"

definition net_hello_reply :: net where
  "net_hello_reply = \<lparr>connect_error = None, ready = True,
     incoming = [[0, 0, 0, 3, 10, 0, 0, 7], [10, 0, 0, 9, 104, 105]]\<rparr>"

definition net_msg_reply :: net where
  "net_msg_reply = \<lparr>connect_error = None, ready = True,
     incoming = [[0, 0, 0, 3, 0, 0, 0, 0, 0, 0, 0, 0]]\<rparr>"

definition net_ack_reply :: net where
  "net_ack_reply = \<lparr>connect_error = None, ready = True,
     incoming = [[0, 0, 0, 1, 10, 0, 0, 9, 10, 0, 0, 7]]\<rparr>"


section \<open>Properties\<close>

subsection \<open>Decimal numerals and dotted-quad addresses\<close>

lemma digit_val_char: "d < 10 \<Longrightarrow> digit_val (digit_char d) = Some d"
proof -
  assume "d < 10"
  then have "d \<in> {0,1,2,3,4,5,6,7,8,9}" by auto
  then show ?thesis by (auto simp: digit_val_def digit_char_def)
qed


lemma digit_char_not_dot: "d < 10 \<Longrightarrow> digit_char d \<noteq> CHR ''.''"
  using digit_val_char [of d] by (auto simp: digit_val_def)

lemma digit_char_zero: "d < 10 \<Longrightarrow> digit_char d = CHR ''0'' \<Longrightarrow> d = 0"
  using digit_val_char [of d] by (simp add: digit_val_def)

lemma parse_dec_append:
  "parse_dec acc (xs @ ys) = (case parse_dec acc xs of None \<Rightarrow> None | Some n \<Rightarrow> parse_dec n ys)"
  by (induction xs arbitrary: acc) (auto split: option.splits)

lemma parse_dec_dec_str: "parse_dec 0 (dec_str n) = Some n"
proof (induction n rule: dec_str.induct)
  case (1 n)
  show ?case
  proof (cases "n < 10")
    case True
    then show ?thesis by (simp add: dec_str.simps [of n] digit_val_char)
  next
    case False
    then have "parse_dec 0 (dec_str (n div 10)) = Some (n div 10)" using 1 by simp
    then show ?thesis using False
      by (simp add: dec_str.simps [of n] parse_dec_append digit_val_char)
  qed
qed

lemma dec_str_nonempty: "dec_str n \<noteq> []"
  by (simp add: dec_str.simps [of n])

lemma dec_str_no_dot: "CHR ''.'' \<notin> set (dec_str n)"
proof (induction n rule: dec_str.induct)
  case (1 n)
  show ?case
  proof (cases "n < 10")
    case True
    then show ?thesis using digit_char_not_dot [of n] by (simp add: dec_str.simps [of n])
  next
    case False
    then have "CHR ''.'' \<notin> set (dec_str (n div 10))" using 1 by simp
    moreover have "digit_char (n mod 10) \<noteq> CHR ''.''" by (rule digit_char_not_dot) simp
    ultimately show ?thesis using False by (simp add: dec_str.simps [of n])
  qed
qed

lemma dec_str_hd: "0 < n \<Longrightarrow> hd (dec_str n) \<noteq> CHR ''0''"
proof (induction n rule: dec_str.induct)
  case (1 n)
  show ?case
  proof (cases "n < 10")
    case True
    then show ?thesis using "1.prems" digit_char_zero [of n] by (auto simp: dec_str.simps [of n])
  next
    case False
    then have "hd (dec_str (n div 10)) \<noteq> CHR ''0''" using 1 by simp
    then show ?thesis using False by (simp add: dec_str.simps [of n] dec_str_nonempty)
  qed
qed

lemma dec_str_length: "1 < length (dec_str n) \<Longrightarrow> 0 < n"
  by (cases "n = 0") (simp_all add: dec_str.simps [of 0])

lemma parse_octet_dec_str: "parse_octet (dec_str (unat (w :: byte))) = Some w"
proof -
  have "unat w < 256" using unsigned_less [of w] by simp
  then show ?thesis
    using dec_str_hd [of "unat w"] dec_str_length [of "unat w"]
    by (auto simp: parse_octet_def dec_str_nonempty parse_dec_dec_str)
qed


lemma split_dots_no_dot: "CHR ''.'' \<notin> set a \<Longrightarrow> split_dots a = [a]"
  by (induction a) auto

lemma split_dots_append:
  "CHR ''.'' \<notin> set a \<Longrightarrow> split_dots (a @ CHR ''.'' # rest) = a # split_dots rest"
  by (induction a) auto

text \<open>
  Both directions of the address conversion: what \<open>inet_ntoa\<close> prints, \<open>inet_aton\<close>
  reads back; and every string \<open>inet_aton\<close> accepts is the one \<open>inet_ntoa\<close> prints for
  its bytes.
\<close>

lemma inet_aton_ntoa: "inet_aton (dec_str (unat (w :: byte)) @ ''.'' @ dec_str (unat (x :: byte)) @ ''.'' @
               dec_str (unat (y :: byte)) @ ''.'' @ dec_str (unat (z :: byte))) = Inr [w, x, y, z]"
  by (simp add: inet_aton_def split_dots_append split_dots_no_dot dec_str_no_dot parse_octet_dec_str)










subsection \<open>The command field\<close>

lemma bytes_of_uint32:
  assumes "0 \<le> (c::int)" and "c < 4294967296"
  shows "(c div 16777216 mod 256) * 16777216 + (c div 65536 mod 256) * 65536
          + (c div 256 mod 256) * 256 + c mod 256 = c"
proof -
  define a where "a = c div 256"
  define b where "b = a div 256"
  define e where "e = b div 256"
  define r0 where "r0 = c mod 256"
  define r1 where "r1 = a mod 256"
  define r2 where "r2 = b mod 256"
  have d1: "c div 256 = a" by (simp only: a_def)
  have d2: "c div 65536 = b"
    using zdiv_zmult2_eq [of 256 c 256] by (simp add: a_def b_def)
  have d3: "c div 16777216 = e"
    using zdiv_zmult2_eq [of 256 "c div 256" 256] zdiv_zmult2_eq [of 65536 c 256] d2
    by (simp add: a_def b_def e_def)
  have e1: "c = a * 256 + r0" unfolding a_def r0_def by (rule div_mult_mod_eq [symmetric])
  have e2: "a = b * 256 + r1" unfolding b_def r1_def by (rule div_mult_mod_eq [symmetric])
  have e3: "b = e * 256 + r2" unfolding e_def r2_def by (rule div_mult_mod_eq [symmetric])
  have c0: "0 \<le> r0" "r0 < 256" unfolding r0_def by (rule pos_mod_sign, simp) (rule pos_mod_bound, simp)
  have a0: "0 \<le> r1" "r1 < 256" unfolding r1_def by (rule pos_mod_sign, simp) (rule pos_mod_bound, simp)
  have b0: "0 \<le> r2" "r2 < 256" unfolding r2_def by (rule pos_mod_sign, simp) (rule pos_mod_bound, simp)
  have "0 \<le> e" and "e < 256" using assms e1 e2 e3 c0 a0 b0 by linarith+
  then have m3: "e mod 256 = e" by (rule mod_pos_pos_trivial)
  have "e * 16777216 + r2 * 65536 + r1 * 256 + r0 = c" using e1 e2 e3 by linarith
  then show ?thesis unfolding d1 d2 d3 m3 r0_def r1_def r2_def .
qed

lemma uint_byte: "uint (word_of_int k :: byte) = k mod 256"
  by (simp add: uint_word_of_int)

lemma unpack_uint32_Cons:
  "unpack_uint32 [a, b, c, d] = uint a * 16777216 + uint b * 65536 + uint c * 256 + uint d"
  by (simp add: unpack_uint32_def)

lemma pack_uint32_bytes:
  "0 \<le> c \<Longrightarrow> c < 4294967296 \<Longrightarrow>
   pack_uint32 c = Inr [word_of_int (c div 16777216), word_of_int (c div 65536),
                word_of_int (c div 256), word_of_int c]"
  by (simp add: pack_uint32_def)

lemma uint32_roundtrip:
  assumes "0 \<le> c" and "c < 4294967296"
  shows "\<exists>cb. pack_uint32 c = Inr cb \<and> length cb = 4 \<and> unpack_uint32 cb = c"
proof -
  have "unpack_uint32 [word_of_int (c div 16777216) :: byte, word_of_int (c div 65536),
                word_of_int (c div 256), word_of_int c] = c"
    unfolding unpack_uint32_Cons uint_byte by (rule bytes_of_uint32 [OF assms])
  then show ?thesis unfolding pack_uint32_bytes [OF assms] by simp
qed

subsection \<open>The codec\<close>


lemma addr_ok_simps: "addr_ok None" "addr_ok (Some x) = is_ipv4 x"
  by (simp_all add: addr_ok_def)

lemma is_ipv4_addr_ok: "is_ipv4 x \<Longrightarrow> addr_ok (Some x)"
  by (simp add: addr_ok_def)


lemma addr_ok_bytes: "addr_ok a \<Longrightarrow> \<exists>bs. addr_bytes a = Inr bs"
  by (cases a) (auto simp: addr_ok_def addr_bytes_def is_ipv4_def split: sum.splits)


lemma addr_string_total: "length bs = 4 \<Longrightarrow> \<exists>a. addr_string bs = Inr a"
  by (auto simp: addr_string_def inet_ntoa_def split: list.splits)

lemma addr_string_ok:
  assumes "addr_string bs = Inr a"
  shows "addr_ok a"
proof (cases a)
  case None
  then show ?thesis by (simp add: addr_ok_def)
next
  case (Some x)
  then have nt: "inet_ntoa bs = Inr x"
    using assms by (auto simp: addr_string_def split: if_splits sum.splits)
  then obtain w y z v where bs: "bs = [w, y, z, v]"
    by (auto simp: inet_ntoa_def split: list.splits)
  have "inet_aton x = Inr bs"
    using nt inet_aton_ntoa [of w y z v] unfolding bs by (simp add: inet_ntoa_def)
  then show ?thesis using Some by (simp add: addr_ok_def is_ipv4_def)
qed



lemma unpack_message_addr_ok:
  assumes "unpack_message m = Inr (c, s, d, p)"
  shows "addr_ok s" and "addr_ok d"
  using assms
  by (auto simp: unpack_message_def split: sum.splits prod.splits dest: addr_string_ok)

lemma pack_message_total:
  assumes "0 \<le> c" and "c < 4294967296" and "addr_ok s" and "addr_ok d"
  shows "\<exists>m. pack_message c s d P = Inr m"
proof -
  obtain cb where cb: "pack_uint32 c = Inr cb"
    using uint32_roundtrip [OF assms(1,2)] by blast
  obtain sb where sb: "addr_bytes s = Inr sb" using addr_ok_bytes [OF assms(3)] by blast
  obtain db where db: "addr_bytes d = Inr db" using addr_ok_bytes [OF assms(4)] by blast
  show ?thesis using cb sb db by (simp add: pack_message_def IPCMessage_pack_def)
qed

lemma pack_message_SEND: "addr_ok s \<Longrightarrow> addr_ok d \<Longrightarrow> \<exists>m. pack_message SEND s d P = Inr m"
  by (rule pack_message_total) (simp_all add: SEND_def)

lemma pack_message_ACK: "addr_ok s \<Longrightarrow> addr_ok d \<Longrightarrow> \<exists>m. pack_message ACK s d P = Inr m"
  by (rule pack_message_total) (simp_all add: ACK_def)

lemma pack_message_REQ: "addr_ok s \<Longrightarrow> addr_ok d \<Longrightarrow> \<exists>m. pack_message REQ s d P = Inr m"
  by (rule pack_message_total) (simp_all add: REQ_def)

lemma pack_message_MSG: "addr_ok s \<Longrightarrow> addr_ok d \<Longrightarrow> \<exists>m. pack_message MSG s d P = Inr m"
  by (rule pack_message_total) (simp_all add: MSG_def)

lemma unpack_message_short: "length m < 12 \<Longrightarrow> unpack_message m = Inl StructError"
  by (simp add: unpack_message_def IPCMessage_unpack_def IPCMessage_size_def)

lemma unpack_message_long:
  assumes "12 \<le> length m"
  shows "\<exists>c s d. unpack_message m = Inr (c, s, d, drop 12 m)"
proof -
  obtain s where s: "addr_string (take 4 (drop 4 (take 12 m))) = Inr s"
    using addr_string_total [of "take 4 (drop 4 (take 12 m))"] assms by auto
  obtain d where d: "addr_string (take 4 (drop 8 (take 12 m))) = Inr d"
    using addr_string_total [of "take 4 (drop 8 (take 12 m))"] assms by auto
  show ?thesis
    using assms s d by (simp add: unpack_message_def IPCMessage_unpack_def IPCMessage_size_def)
qed




text \<open>
  Claim C8. On every input shorter than the 12-byte header \<open>unpack_message\<close> fails with
  \<open>struct.error\<close>; on every input of at least 12 bytes it succeeds, and the payload is the
  input without its first 12 bytes.
\<close>

theorem unpack_message_undersized:
  "(length m < 12 \<longrightarrow> unpack_message m = Inl StructError) \<and>
   (12 \<le> length m \<longrightarrow> (\<exists>c s d. unpack_message m = Inr (c, s, d, drop 12 m)))"
  using unpack_message_short [of m] unpack_message_long [of m] by blast

text \<open>
  An 8-byte input, and a 13-byte one.
\<close>

theorem unpack_message_undersized_witness:
  "length [0, 0, 0, 3, 10, 0, 0, 7 :: byte] < 12 \<and>
   unpack_message [0, 0, 0, 3, 10, 0, 0, 7] = Inl StructError \<and>
   12 \<le> length [0, 0, 0, 3, 10, 0, 0, 7, 0, 0, 0, 0, 104 :: byte] \<and>
   (\<exists>c s d. unpack_message [0, 0, 0, 3, 10, 0, 0, 7, 0, 0, 0, 0, 104] = Inr (c, s, d, [104]))"
  using unpack_message_undersized [of "[0, 0, 0, 3, 10, 0, 0, 7]"]
    unpack_message_undersized [of "[0, 0, 0, 3, 10, 0, 0, 7, 0, 0, 0, 0, 104]"]
  by simp

subsection \<open>The mailbox\<close>

lemma try_dequeue_Nil: "try_dequeue [] = Inr (None, [])"
  by (simp add: try_dequeue_def queue_empty_def)

lemma try_dequeue_Cons: "try_dequeue (x # q) = Inr (Some x, q)"
  by (simp add: try_dequeue_def queue_empty_def queue_get_def)

lemma drain_append: "drain (length q) (q @ r) = Inr (map Some q, r)"
  by (induction q) (simp_all add: try_dequeue_Cons)

text \<open>
  Claim C4, as amended. After two entries are put into a mailbox that holds the
  entries \<open>q\<close>, the next \<open>length q + 2\<close> dequeues succeed and return the entries of
  \<open>q\<close> in order, then \<open>e1\<close>, then \<open>e2\<close>, and leave the mailbox empty. On an empty
  mailbox the two dequeues return \<open>e1\<close> and \<open>e2\<close>.
\<close>

theorem mailbox_fifo:
  "drain (length q + 2) (queue_put (queue_put q e1) e2) = Inr (map Some q @ [Some e1, Some e2], [])"
  using drain_append [of "q @ [e1, e2]" "[]"] by (simp add: queue_put_def)

text \<open>
  On a mailbox that already holds an entry, the two dequeues after the two puts return
  that entry and the first of the two, not the two that were put.
\<close>

theorem mailbox_fifo_counterexample:
  "drain 2 (queue_put (queue_put [(None, [0])] (None, [1])) (None, [2]))
     = Inr ([Some (None, [0]), Some (None, [1])], [(None, [2])]) \<and>
   [Some (None :: string option, [0 :: byte]), Some (None, [1])] \<noteq> [Some (None, [1]), Some (None, [2])]"
  by (simp add: queue_put_def try_dequeue_Cons numeral_2_eq_2)

text \<open>
  Claim C9. On an empty mailbox any number of dequeues in a row each return "empty",
  none fails or blocks, and the mailbox is still empty.
\<close>

theorem try_dequeue_empty_idempotent: "drain n [] = Inr (replicate n None, [])"
  by (induction n) (simp_all add: try_dequeue_Nil)

subsection \<open>The relay\<close>

text \<open>
  The \<open>REQ\<close> branch takes its entry as \<open>try_dequeue\<close> does.
\<close>

lemma handleInteraction_REQ_try_dequeue:
  assumes "unpack_message m = Inr (REQ, s, d, p)"
  shows "handleInteraction ip m (srv, sk) =
           (case try_dequeue (queue srv) of
              Inl b \<Rightarrow> Inl (Blocked b)
            | Inr (Some (os, pl), q') \<Rightarrow>
                (case pack_message MSG os (Some ip) pl of
                   Inl e \<Rightarrow> Inl (Raised e)
                 | Inr msg \<Rightarrow> Inr (srv\<lparr>queue := q'\<rparr>, sendall sk msg))
            | Inr (None, q') \<Rightarrow>
                (case pack_message MSG None None [] of
                   Inl e \<Rightarrow> Inl (Raised e)
                 | Inr msg \<Rightarrow> Inr (srv, sendall sk msg)))"
proof -
  have ne: "REQ \<noteq> SEND" by (simp add: REQ_def SEND_def)
  show ?thesis
  proof (cases "queue srv")
    case Nil
    then show ?thesis using assms ne
      by (simp add: handleInteraction_def try_dequeue_Nil queue_empty_def)
  next
    case (Cons e q')
    then show ?thesis using assms ne
      by (cases e) (simp add: handleInteraction_def try_dequeue_Cons queue_empty_def queue_get_def)
  qed
qed

text \<open>
  Claim C2. For every message that decodes to \<open>SEND\<close> with source \<open>s\<close>,
  destination \<open>d\<close> and payload \<open>p\<close>, \<open>handleInteraction\<close> appends \<open>(s, p)\<close> at the
  tail of the mailbox, which grows by one, and writes \<open>pack_message ACK s d []\<close> to the
  socket.
\<close>

theorem handleInteraction_SEND:
  assumes "unpack_message m = Inr (SEND, s, d, p)"
  shows "\<exists>reply srv' sk'.
           pack_message ACK s d [] = Inr reply \<and>
           handleInteraction ip m (srv, sk) = Inr (srv', sk') \<and>
           srv' = srv\<lparr>queue := queue srv @ [(s, p)]\<rparr> \<and>
           length (queue srv') = length (queue srv) + 1 \<and>
           sk' = sk\<lparr>sent := sent sk @ [reply]\<rparr>"
proof -
  obtain reply where r: "pack_message ACK s d [] = Inr reply"
    using pack_message_ACK unpack_message_addr_ok [OF assms] by blast
  have "handleInteraction ip m (srv, sk)
          = Inr (srv\<lparr>queue := queue srv @ [(s, p)]\<rparr>, sk\<lparr>sent := sent sk @ [reply]\<rparr>)"
    using assms r by (simp add: handleInteraction_def queue_put_def sendall_def)
  then show ?thesis using r by simp
qed

text \<open>
  A \<open>SEND\<close> from \<open>10.0.0.7\<close> with a two-byte payload, on the empty relay.
\<close>

theorem handleInteraction_SEND_witness:
  "unpack_message [0, 0, 0, 0, 10, 0, 0, 7, 10, 0, 0, 9, 104, 105]
     = Inr (SEND, Some ''10.0.0.7'', Some ''10.0.0.9'', [104, 105]) \<and>
   (\<exists>reply srv' sk'.
      pack_message ACK (Some ''10.0.0.7'') (Some ''10.0.0.9'') [] = Inr reply \<and>
      handleInteraction ''10.0.0.9'' [0, 0, 0, 0, 10, 0, 0, 7, 10, 0, 0, 9, 104, 105]
        (relay0, socket_new) = Inr (srv', sk') \<and>
      srv' = relay0\<lparr>queue := queue relay0 @ [(Some ''10.0.0.7'', [104, 105])]\<rparr> \<and>
      length (queue srv') = length (queue relay0) + 1 \<and>
      sk' = socket_new\<lparr>sent := sent socket_new @ [reply]\<rparr>)"
proof -
  have h: "unpack_message [0, 0, 0, 0, 10, 0, 0, 7, 10, 0, 0, 9, 104, 105]
     = Inr (SEND, Some ''10.0.0.7'', Some ''10.0.0.9'', [104, 105])"
    by code_simp
  show ?thesis
    using h handleInteraction_SEND [OF h, of "''10.0.0.9''" relay0 socket_new] by simp
qed

text \<open>
  Claim C3. For every message that decodes to \<open>REQ\<close>: when the mailbox has a head
  entry \<open>(os, pl)\<close>, \<open>handleInteraction\<close> removes it, so the mailbox is shorter by one,
  and writes \<open>pack_message MSG os this_ip pl\<close>; when the mailbox is empty it writes
  \<open>pack_message MSG None None []\<close> and leaves the mailbox as it is. The head's source is one
  that can be encoded, as every entry the relay stores is, and \<open>this_ip\<close> is an IPv4
  address.
\<close>

theorem handleInteraction_REQ:
  assumes "unpack_message m = Inr (REQ, s, d, p)"
  shows "(queue srv = (os, pl) # rest \<and> addr_ok os \<and> is_ipv4 ip \<longrightarrow>
            (\<exists>reply. pack_message MSG os (Some ip) pl = Inr reply \<and>
               handleInteraction ip m (srv, sk)
                 = Inr (srv\<lparr>queue := rest\<rparr>, sk\<lparr>sent := sent sk @ [reply]\<rparr>) \<and>
               length (queue srv) = length rest + 1)) \<and>
         (queue srv = [] \<longrightarrow>
            (\<exists>reply. pack_message MSG None None [] = Inr reply \<and>
               handleInteraction ip m (srv, sk) = Inr (srv, sk\<lparr>sent := sent sk @ [reply]\<rparr>)))"
proof (intro conjI impI)
  assume h: "queue srv = (os, pl) # rest \<and> addr_ok os \<and> is_ipv4 ip"
  then obtain reply where r: "pack_message MSG os (Some ip) pl = Inr reply"
    using pack_message_MSG [of os "Some ip" pl] by (auto simp: addr_ok_simps)
  have ne: "REQ \<noteq> SEND" by (simp add: REQ_def SEND_def)
  have "handleInteraction ip m (srv, sk)
          = Inr (srv\<lparr>queue := rest\<rparr>, sk\<lparr>sent := sent sk @ [reply]\<rparr>)"
    using assms r h ne
    by (simp add: handleInteraction_def queue_empty_def queue_get_def sendall_def)
  then show "\<exists>reply. pack_message MSG os (Some ip) pl = Inr reply \<and>
               handleInteraction ip m (srv, sk)
                 = Inr (srv\<lparr>queue := rest\<rparr>, sk\<lparr>sent := sent sk @ [reply]\<rparr>) \<and>
               length (queue srv) = length rest + 1"
    using r h by simp
next
  assume h: "queue srv = []"
  obtain reply where r: "pack_message MSG None None [] = Inr reply"
    using pack_message_MSG [of None None "[]"] by (auto simp: addr_ok_simps)
  have ne: "REQ \<noteq> SEND" by (simp add: REQ_def SEND_def)
  have "handleInteraction ip m (srv, sk) = Inr (srv, sk\<lparr>sent := sent sk @ [reply]\<rparr>)"
    using assms r h ne
    by (simp add: handleInteraction_def queue_empty_def sendall_def)
  then show "\<exists>reply. pack_message MSG None None [] = Inr reply \<and>
               handleInteraction ip m (srv, sk) = Inr (srv, sk\<lparr>sent := sent sk @ [reply]\<rparr>)"
    using r by simp
qed

text \<open>
  A \<open>REQ\<close> on a mailbox with one entry, and on the empty one.
\<close>

theorem handleInteraction_REQ_witness:
  "unpack_message [0, 0, 0, 2, 10, 0, 0, 7, 0, 0, 0, 0] = Inr (REQ, Some ''10.0.0.7'', None, []) \<and>
   addr_ok (Some ''10.0.0.7'') \<and> is_ipv4 ''10.0.0.9'' \<and>
   (\<exists>reply. pack_message MSG (Some ''10.0.0.7'') (Some ''10.0.0.9'') [104, 105] = Inr reply \<and>
      handleInteraction ''10.0.0.9'' [0, 0, 0, 2, 10, 0, 0, 7, 0, 0, 0, 0]
        (relay0\<lparr>queue := [(Some ''10.0.0.7'', [104, 105])]\<rparr>, socket_new)
        = Inr (relay0\<lparr>queue := []\<rparr>, socket_new\<lparr>sent := sent socket_new @ [reply]\<rparr>)) \<and>
   (\<exists>reply. pack_message MSG None None [] = Inr reply \<and>
      handleInteraction ''10.0.0.9'' [0, 0, 0, 2, 10, 0, 0, 7, 0, 0, 0, 0] (relay0, socket_new)
        = Inr (relay0, socket_new\<lparr>sent := sent socket_new @ [reply]\<rparr>))"
proof -
  have h: "unpack_message [0, 0, 0, 2, 10, 0, 0, 7, 0, 0, 0, 0]
             = Inr (REQ, Some ''10.0.0.7'', None, [])"
    by code_simp
  have a: "addr_ok (Some ''10.0.0.7'')" by code_simp
  have b: "is_ipv4 ''10.0.0.9''" by code_simp
  have q: "queue relay0 = []" by (simp add: relay0_def)
  show ?thesis
    using h a b q
      handleInteraction_REQ [OF h, of "relay0\<lparr>queue := [(Some ''10.0.0.7'', [104, 105])]\<rparr>"
        "Some ''10.0.0.7''" "[104, 105]" "[]" "''10.0.0.9''" socket_new]
      handleInteraction_REQ [OF h, of relay0 None "[]" "[]" "''10.0.0.9''" socket_new]
    by simp
qed

text \<open>
  Claim C10. For every message that decodes to a command other than \<open>SEND\<close> and
  \<open>REQ\<close>, \<open>handleInteraction\<close> returns without an exception, with the server (its
  mailbox included) and the socket unchanged: nothing is written.
\<close>

theorem handleInteraction_other:
  assumes "unpack_message m = Inr (c, s, d, p)" and "c \<noteq> SEND" and "c \<noteq> REQ"
  shows "handleInteraction ip m (srv, sk) = Inr (srv, sk)"
  using assms by (simp add: handleInteraction_def)

text \<open>
  An \<open>ACK\<close> sent to a relay that holds one entry.
\<close>

theorem handleInteraction_other_witness:
  "unpack_message [0, 0, 0, 1, 10, 0, 0, 7, 0, 0, 0, 0, 9] = Inr (ACK, Some ''10.0.0.7'', None, [9]) \<and>
   ACK \<noteq> SEND \<and> ACK \<noteq> REQ \<and>
   handleInteraction ''10.0.0.9'' [0, 0, 0, 1, 10, 0, 0, 7, 0, 0, 0, 0, 9]
     (relay0\<lparr>queue := [(None, [1])]\<rparr>, socket_new)
     = Inr (relay0\<lparr>queue := [(None, [1])]\<rparr>, socket_new)"
proof -
  have h: "unpack_message [0, 0, 0, 1, 10, 0, 0, 7, 0, 0, 0, 0, 9]
             = Inr (ACK, Some ''10.0.0.7'', None, [9])"
    by code_simp
  have n1: "ACK \<noteq> SEND" and n2: "ACK \<noteq> REQ" by (simp_all add: ACK_def SEND_def REQ_def)
  show ?thesis
    using h n1 n2 handleInteraction_other [OF h n1 n2, of "''10.0.0.9''"
        "relay0\<lparr>queue := [(None, [1])]\<rparr>" socket_new]
    by simp
qed

text \<open>
  Every source the relay stores can be encoded again, so the hypothesis on the head
  entry above holds in every state the relay reaches from an empty mailbox.
\<close>

lemma handleInteraction_queue_ok:
  assumes "handleInteraction ip m (srv, sk) = Inr (srv', sk')"
    and "\<forall>e \<in> set (queue srv). addr_ok (fst e)"
  shows "\<forall>e \<in> set (queue srv'). addr_ok (fst e)"
proof (cases "unpack_message m")
  case (Inl e)
  then show ?thesis using assms(1) by (simp add: handleInteraction_def)
next
  case (Inr r)
  obtain c s d p where r: "r = (c, s, d, p)" by (cases r) auto
  have u: "unpack_message m = Inr (c, s, d, p)" using Inr r by simp
  have ok: "addr_ok s" using unpack_message_addr_ok(1) [OF u] .
  consider "c = SEND" | "c \<noteq> SEND" "c = REQ" | "c \<noteq> SEND" "c \<noteq> REQ" by blast
  then show ?thesis
  proof cases
    case 1
    then have "queue srv' = queue srv @ [(s, p)]"
      using assms(1) u
      by (auto simp: handleInteraction_def queue_put_def split: sum.splits)
    then show ?thesis using assms(2) ok by simp
  next
    case 2
    have "set (queue srv') \<subseteq> set (queue srv)"
    proof (cases "queue srv")
      case Nil
      then show ?thesis using assms(1) u 2
        by (auto simp: handleInteraction_def queue_empty_def split: sum.splits)
    next
      case (Cons e q')
      then have "queue srv' = q'" using assms(1) u 2
        by (cases e)
          (auto simp: handleInteraction_def queue_empty_def queue_get_def split: sum.splits)
      then show ?thesis using Cons by auto
    qed
    then show ?thesis using assms(2) by blast
  next
    case 3
    then have "srv' = srv" using assms(1) u by (simp add: handleInteraction_def)
    then show ?thesis using assms(2) by simp
  qed
qed

text \<open>
  Scenarios A and B of the specification: a \<open>SEND\<close> from \<open>10.0.0.7\<close> carrying
  \<open>hello\<close>, then a \<open>REQ\<close>.
\<close>

lemma scenario_A_B:
  "handleInteraction ''10.0.0.9'' [0, 0, 0, 0, 10, 0, 0, 7, 10, 0, 0, 9, 104, 101, 108, 108, 111]
     (relay0, socket_new)
     = Inr (relay0\<lparr>queue := [(Some ''10.0.0.7'', [104, 101, 108, 108, 111])]\<rparr>,
            socket_new\<lparr>sent := [[0, 0, 0, 1, 10, 0, 0, 7, 10, 0, 0, 9]]\<rparr>) \<and>
   handleInteraction ''10.0.0.9'' [0, 0, 0, 2, 10, 0, 0, 8, 0, 0, 0, 0]
     (relay0\<lparr>queue := [(Some ''10.0.0.7'', [104, 101, 108, 108, 111])]\<rparr>, socket_new)
     = Inr (relay0\<lparr>queue := []\<rparr>,
            socket_new\<lparr>sent := [[0, 0, 0, 3, 10, 0, 0, 7, 10, 0, 0, 9, 104, 101, 108, 108, 111]]\<rparr>)"
proof -
  have u1: "unpack_message [0, 0, 0, 0, 10, 0, 0, 7, 10, 0, 0, 9, 104, 101, 108, 108, 111]
              = Inr (SEND, Some ''10.0.0.7'', Some ''10.0.0.9'', [104, 101, 108, 108, 111])"
    by code_simp
  have p1: "pack_message ACK (Some ''10.0.0.7'') (Some ''10.0.0.9'') []
              = Inr [0, 0, 0, 1, 10, 0, 0, 7, 10, 0, 0, 9]"
    by code_simp
  have u2: "unpack_message [0, 0, 0, 2, 10, 0, 0, 8, 0, 0, 0, 0]
              = Inr (REQ, Some ''10.0.0.8'', None, [])"
    by code_simp
  have p2: "pack_message MSG (Some ''10.0.0.7'') (Some ''10.0.0.9'') [104, 101, 108, 108, 111]
              = Inr [0, 0, 0, 3, 10, 0, 0, 7, 10, 0, 0, 9, 104, 101, 108, 108, 111]"
    by code_simp
  have ne: "REQ \<noteq> SEND" by (simp add: REQ_def SEND_def)
  have a: "handleInteraction ''10.0.0.9''
             [0, 0, 0, 0, 10, 0, 0, 7, 10, 0, 0, 9, 104, 101, 108, 108, 111] (relay0, socket_new)
     = Inr (relay0\<lparr>queue := [(Some ''10.0.0.7'', [104, 101, 108, 108, 111])]\<rparr>,
            socket_new\<lparr>sent := [[0, 0, 0, 1, 10, 0, 0, 7, 10, 0, 0, 9]]\<rparr>)"
    using u1 p1 by (simp add: handleInteraction_def queue_put_def sendall_def relay0_def socket_new_def)
  have b: "handleInteraction ''10.0.0.9'' [0, 0, 0, 2, 10, 0, 0, 8, 0, 0, 0, 0]
     (relay0\<lparr>queue := [(Some ''10.0.0.7'', [104, 101, 108, 108, 111])]\<rparr>, socket_new)
     = Inr (relay0\<lparr>queue := []\<rparr>,
            socket_new\<lparr>sent := [[0, 0, 0, 3, 10, 0, 0, 7, 10, 0, 0, 9, 104, 101, 108, 108, 111]]\<rparr>)"
    using u2 ne p2
    by (simp add: handleInteraction_def queue_empty_def queue_get_def sendall_def socket_new_def)
  show ?thesis using a b by (rule conjI)
qed

subsection \<open>The client driver\<close>

text \<open>
  Claim C5. When the connection is made, the socket becomes readable and the reply
  decodes to \<open>MSG\<close> with source \<open>s\<close> and payload \<open>p\<close>, \<open>receive\<close> returns
  \<open>(None, None)\<close> exactly when \<open>s\<close> is absent and \<open>p\<close> is empty, and \<open>(s, p)\<close> in every
  other case; it raises in neither.
\<close>

theorem receive_MSG:
  assumes "connect_error nw = None" and "ready nw" and "is_ipv4 ip"
    and "unpack_message (recv_all (incoming nw)) = Inr (MSG, s, d, p)"
  shows "fst (receive ip nw) = (if s = None \<and> p = [] then Inr (None, None) else Inr (s, Some p)) \<and>
         (fst (receive ip nw) = Inr (None, None) \<longleftrightarrow> s = None \<and> p = [])"
proof -
  obtain req where r: "pack_message REQ (Some ip) None [] = Inr req"
    using pack_message_REQ [OF is_ipv4_addr_ok [OF assms(3)] addr_ok_simps(1)] by blast
  show ?thesis using assms(1,2,4) r by (simp add: receive_def Let_def)
qed

text \<open>
  The reply to a \<open>REQ\<close> on an empty mailbox, and a reply that carries a message.
\<close>

theorem receive_MSG_witness:
  "connect_error net_empty_reply = None \<and> ready net_empty_reply \<and> is_ipv4 ''10.0.0.9'' \<and>
   unpack_message (recv_all (incoming net_empty_reply)) = Inr (MSG, None, None, []) \<and>
   fst (receive ''10.0.0.9'' net_empty_reply) = Inr (None, None) \<and>
   connect_error net_hello_reply = None \<and> ready net_hello_reply \<and>
   unpack_message (recv_all (incoming net_hello_reply))
     = Inr (MSG, Some ''10.0.0.7'', Some ''10.0.0.9'', [104, 105]) \<and>
   fst (receive ''10.0.0.9'' net_hello_reply) = Inr (Some ''10.0.0.7'', Some [104, 105])"
proof -
  have c1: "connect_error net_empty_reply = None" and r1: "ready net_empty_reply"
    and c2: "connect_error net_hello_reply = None" and r2: "ready net_hello_reply"
    by (simp_all add: net_empty_reply_def net_hello_reply_def)
  have ip: "is_ipv4 ''10.0.0.9''" by code_simp
  have u1: "unpack_message (recv_all (incoming net_empty_reply)) = Inr (MSG, None, None, [])"
    by code_simp
  have u2: "unpack_message (recv_all (incoming net_hello_reply))
              = Inr (MSG, Some ''10.0.0.7'', Some ''10.0.0.9'', [104, 105])"
    by code_simp
  show ?thesis
    using c1 r1 c2 r2 ip u1 u2 receive_MSG [OF c1 r1 ip u1] receive_MSG [OF c2 r2 ip u2]
    by simp
qed

text \<open>
  Claim C6, as amended. When the connection is made, the socket becomes readable and
  the reply decodes to a command other than \<open>ACK\<close>, \<open>send\<close> raises \<open>AckTimeout\<close> with the
  message "Unknown acknowledgment issue.", the exception class it also raises on a
  timeout; it is not the error kind for commands.
\<close>

theorem send_non_ACK:
  assumes "connect_error nw = None" and "ready nw" and "is_ipv4 ip" and "is_ipv4 dst"
    and "unpack_message (fst (recv 1024 (incoming nw))) = Inr (c, s, d, p)" and "c \<noteq> ACK"
  shows "fst (send ip nw dst payload) = Inl (AckTimeout ack_unknown) \<and>
         \<not> is_protocol_error (AckTimeout ack_unknown)"
proof -
  obtain msg where r: "pack_message SEND (Some ip) (Some dst) payload = Inr msg"
    using pack_message_SEND [OF is_ipv4_addr_ok [OF assms(3)] is_ipv4_addr_ok [OF assms(4)]]
    by blast
  show ?thesis using assms(1,2,5,6) r by (simp add: send_def Let_def is_protocol_error_def)
qed

text \<open>
  A \<open>MSG\<close> in reply to \<open>send\<close>.
\<close>

theorem send_non_ACK_witness:
  "connect_error net_msg_reply = None \<and> ready net_msg_reply \<and>
   is_ipv4 ''10.0.0.9'' \<and> is_ipv4 ''10.0.0.7'' \<and>
   unpack_message (fst (recv 1024 (incoming net_msg_reply))) = Inr (MSG, None, None, []) \<and>
   MSG \<noteq> ACK \<and>
   fst (send ''10.0.0.9'' net_msg_reply ''10.0.0.7'' [1]) = Inl (AckTimeout ack_unknown) \<and>
   \<not> is_protocol_error (AckTimeout ack_unknown)"
proof -
  have c: "connect_error net_msg_reply = None" and r: "ready net_msg_reply"
    by (simp_all add: net_msg_reply_def)
  have i1: "is_ipv4 ''10.0.0.9''" and i2: "is_ipv4 ''10.0.0.7''" by code_simp+
  have u: "unpack_message (fst (recv 1024 (incoming net_msg_reply))) = Inr (MSG, None, None, [])"
    by code_simp
  have n: "MSG \<noteq> ACK" by (simp add: MSG_def ACK_def)
  show ?thesis using c r i1 i2 u n send_non_ACK [OF c r i1 i2 u n, of "[1]"] by simp
qed

text \<open>
  The reply \<open>MSG\<close> makes \<open>send\<close> raise \<open>AckTimeout\<close>, which is not a protocol
  error.
\<close>

theorem send_non_ACK_counterexample:
  "fst (send ''10.0.0.9'' net_msg_reply ''10.0.0.7'' [104, 105]) = Inl (AckTimeout ack_unknown) \<and>
   \<not> is_protocol_error (AckTimeout ack_unknown)"
  by code_simp

text \<open>
  Claim C7. \<open>send\<close> is to close its socket on every exit. On an acknowledged
  \<open>send\<close> it returns with the socket still open.
\<close>

theorem send_ACK_socket_left_open:
  "fst (send ''10.0.0.9'' net_ack_reply ''10.0.0.7'' [104, 105]) = Inr () \<and>
   closed (snd (send ''10.0.0.9'' net_ack_reply ''10.0.0.7'' [104, 105])) = False"
  by code_simp

text \<open>
  No exit of \<open>send\<close> closes the socket, while \<open>receive\<close> closes its socket on the
  timeout and whenever a reply with a full header has arrived.
\<close>

lemma send_never_closes: "\<not> closed (snd (send ip nw dst payload))"
  by (simp add: send_def Let_def socket_new_def sendall_def
      split: option.splits sum.splits prod.splits)

lemma receive_closes:
  assumes "connect_error nw = None" and "is_ipv4 ip"
    and "\<not> ready nw \<or> 12 \<le> length (recv_all (incoming nw))"
  shows "closed (snd (receive ip nw))"
proof -
  obtain req where r: "pack_message REQ (Some ip) None [] = Inr req"
    using pack_message_REQ [OF is_ipv4_addr_ok [OF assms(2)] addr_ok_simps(1)] by blast
  show ?thesis
  proof (cases "ready nw")
    case False
    then show ?thesis using assms(1) r by (simp add: receive_def Let_def close_def)
  next
    case True
    then obtain c s d where "unpack_message (recv_all (incoming nw))
        = Inr (c, s, d, drop 12 (recv_all (incoming nw)))"
      using assms(3) unpack_message_long [of "recv_all (incoming nw)"] by blast
    then show ?thesis using True assms(1) r by (simp add: receive_def Let_def close_def)
  qed
qed

end
